theory Spec2Isabelle
  imports Complex_Main "HOL-Library.Sublist"
begin

section \<open>Strings and the standard-library helpers the scripts call\<close>

text \<open>
  A Python \<open>str\<close> is modelled by the \<^typ>\<open>string\<close> of its UTF-8 bytes, so that
  \<open>s.encode()\<close> and \<open>b.decode()\<close> of valid text are the identity.
  \<open>" ".join(scopes)\<close> is \<open>join\<close>.
\<close>

fun join :: "string \<Rightarrow> string list \<Rightarrow> string" where
  "join sep [] = []"
| "join sep [x] = x"
| "join sep (x # y # ys) = x @ sep @ join sep (y # ys)"

text \<open>
  \<open>urllib.parse.quote(string, safe)\<close>: every byte of the UTF-8 encoding that is
  neither one of the always-safe characters nor listed in \<open>safe\<close> becomes \<open>%XX\<close>
  with upper-case hexadecimal digits.
\<close>

definition always_safe :: "char \<Rightarrow> bool" where
  "always_safe c \<longleftrightarrow>
     c \<in> set ''ABCDEFGHIJKLMNOPQRSTUVWXYZabcdefghijklmnopqrstuvwxyz0123456789_.-~''"

definition hexdigit :: "nat \<Rightarrow> char" where
  "hexdigit n = ''0123456789ABCDEF'' ! n"

definition quote_byte :: "string \<Rightarrow> char \<Rightarrow> string" where
  "quote_byte safe c =
     (if always_safe c \<or> c \<in> set safe then [c]
      else [CHR ''%'', hexdigit (of_char c div 16), hexdigit (of_char c mod 16)])"

definition quote :: "string \<Rightarrow> string \<Rightarrow> string" where
  "quote safe s = concat (map (quote_byte safe) s)"

text \<open>
  \<open>urllib.parse.quote_plus(string, safe)\<close>: as \<open>quote\<close>, with each space
  replaced by a plus sign.
\<close>

definition quote_plus :: "string \<Rightarrow> string \<Rightarrow> string" where
  "quote_plus safe s =
     (if CHR '' '' \<notin> set s then quote safe s
      else map (\<lambda>c. if c = CHR '' '' then CHR ''+'' else c) (quote (safe @ '' '') s))"

text \<open>
  \<open>urllib.parse.urlencode(query)\<close> on a dict of \<open>str\<close> keys and values, given as
  the list of its items in insertion order.
\<close>

definition urlencode :: "(string \<times> string) list \<Rightarrow> string" where
  "urlencode query = join ''&'' (map (\<lambda>(k, v). quote_plus [] k @ ''='' @ quote_plus [] v) query)"

section \<open>Step 1 of both scripts: the authorization URL\<close>

text \<open>
  Lines 32-44 of \<open>get_refresh_token.py\<close> and 98-110 of
  \<open>get_refresh_token_localhost.py\<close>: the format string with its three
  placeholders filled by \<open>CLIENT_ID\<close> (as it is), the quoted \<open>REDIRECT_URI\<close>
  and the quoted \<open>scope_string\<close>.
\<close>

definition scope_string :: "string list \<Rightarrow> string" where
  "scope_string scopes = join '' '' scopes"

definition auth_url :: "string \<Rightarrow> string \<Rightarrow> string list \<Rightarrow> string" where
  "auth_url CLIENT_ID REDIRECT_URI scopes =
     ''https://accounts.google.com/o/oauth2/v2/auth?'' @
     ''client_id='' @ CLIENT_ID @ ''&'' @
     ''redirect_uri='' @ quote ''/'' REDIRECT_URI @ ''&'' @
     ''response_type=code&'' @
     ''scope='' @ quote ''/'' (scope_string scopes) @ ''&'' @
     ''access_type=offline&'' @
     ''prompt=consent''"


section \<open>Whitespace stripping of the operator's input\<close>

text \<open>
  \<open>str.strip()\<close> removes from both ends the characters for which
  \<open>str.isspace()\<close> holds. They are listed here by their UTF-8 encodings:
  U+0009..U+000D, U+001C..U+0020, U+0085, U+00A0, U+1680, U+2000..U+200A, U+2028,
  U+2029, U+202F, U+205F and U+3000.
\<close>

definition whitespace :: "string list" where
  "whitespace =
     [[CHR 0x09], [CHR 0x0A], [CHR 0x0B], [CHR 0x0C], [CHR 0x0D],
      [CHR 0x1C], [CHR 0x1D], [CHR 0x1E], [CHR 0x1F], [CHR 0x20],
      [CHR 0xC2, CHR 0x85], [CHR 0xC2, CHR 0xA0], [CHR 0xE1, CHR 0x9A, CHR 0x80],
      [CHR 0xE2, CHR 0x80, CHR 0x80], [CHR 0xE2, CHR 0x80, CHR 0x81],
      [CHR 0xE2, CHR 0x80, CHR 0x82], [CHR 0xE2, CHR 0x80, CHR 0x83],
      [CHR 0xE2, CHR 0x80, CHR 0x84], [CHR 0xE2, CHR 0x80, CHR 0x85],
      [CHR 0xE2, CHR 0x80, CHR 0x86], [CHR 0xE2, CHR 0x80, CHR 0x87],
      [CHR 0xE2, CHR 0x80, CHR 0x88], [CHR 0xE2, CHR 0x80, CHR 0x89],
      [CHR 0xE2, CHR 0x80, CHR 0x8A], [CHR 0xE2, CHR 0x80, CHR 0xA8],
      [CHR 0xE2, CHR 0x80, CHR 0xA9], [CHR 0xE2, CHR 0x80, CHR 0xAF],
      [CHR 0xE2, CHR 0x81, CHR 0x9F], [CHR 0xE3, CHR 0x80, CHR 0x80]]"

definition ws_prefix :: "string \<Rightarrow> string option" where
  "ws_prefix s = List.find (\<lambda>w. prefix w s) whitespace"

definition ws_suffix :: "string \<Rightarrow> string option" where
  "ws_suffix s = List.find (\<lambda>w. suffix w s) whitespace"

function lstrip :: "string \<Rightarrow> string" where
  "lstrip s = (case ws_prefix s of None \<Rightarrow> s | Some w \<Rightarrow> lstrip (drop (length w) s))"
  by pat_completeness auto
termination
proof (relation "measure length")
  show "wf (measure length)" by simp
next
  fix s w
  assume "ws_prefix s = Some w"
  then have "w \<in> set whitespace" and "prefix w s"
    by (auto simp: ws_prefix_def find_Some_iff)
  then have "w \<noteq> []" and "length w \<le> length s"
    by (auto simp: whitespace_def prefix_length_le)
  then show "(drop (length w) s, s) \<in> measure length"
    by (cases w) auto
qed

function rstrip :: "string \<Rightarrow> string" where
  "rstrip s = (case ws_suffix s of None \<Rightarrow> s | Some w \<Rightarrow> rstrip (take (length s - length w) s))"
  by pat_completeness auto
termination
proof (relation "measure length")
  show "wf (measure length)" by simp
next
  fix s w
  assume "ws_suffix s = Some w"
  then have "w \<in> set whitespace" and "suffix w s"
    by (auto simp: ws_suffix_def find_Some_iff)
  then have "w \<noteq> []" and "length w \<le> length s"
    by (auto simp: whitespace_def suffix_length_le)
  then show "(take (length s - length w) s, s) \<in> measure length"
    by (cases w) auto
qed

declare lstrip.simps [simp del] rstrip.simps [simp del]

definition strip :: "string \<Rightarrow> string" where
  "strip s = rstrip (lstrip s)"


section \<open>The environment of a run and what a run leaves behind\<close>

text \<open>
  What \<open>json.loads\<close> returns. \<open>JObj\<close> holds the items of the Python dict, so
  its keys are distinct.
\<close>

datatype json =
    JNull
  | JBool bool
  | JInt int
  | JFloat real
  | JStr string
  | JArr "json list"
  | JObj "(string \<times> json) list"

text \<open>
  The three ways in which the \<open>try\<close> block can go at
  \<open>urllib.request.urlopen(req)\<close> and the line after it:
  \<^item> \<open>Response tokens\<close>: a 2xx answer whose body \<open>json.loads\<close> parses to
    \<open>tokens\<close>;
  \<^item> \<open>RaisesHTTPError code body parsed\<close>: \<open>urllib.error.HTTPError\<close> with status
    \<open>code\<close>; \<open>body\<close> is \<open>e.read().decode()\<close>, \<open>None\<close> when the bytes are not
    UTF-8 and \<open>decode\<close> raises; \<open>parsed\<close> is \<open>json.loads\<close> of that body,
    \<open>None\<close> when it raises;
  \<^item> \<open>RaisesException msg\<close>: any other exception (no connection, a 2xx body that
    is not JSON), with \<open>msg\<close> its \<open>str(e)\<close>.
\<close>

datatype urlopen_result =
    Response json
  | RaisesHTTPError int "string option" "json option"
  | RaisesException string

text \<open>
  One item written to standard output:
  \<^item> \<open>Line s\<close>: \<open>print(s)\<close> of a \<open>str\<close>;
  \<^item> \<open>LineOf before v\<close>: \<open>print\<close> of \<open>before\<close> followed by \<open>str(v)\<close> for a
    value \<open>v\<close> that is not a \<open>str\<close>;
  \<^item> \<open>LineDumps v\<close>: \<open>print(json.dumps(v, indent=2))\<close>;
  \<^item> \<open>LineTypeError\<close>: \<open>print(str(e))\<close> for a \<open>TypeError\<close> of the interpreter;
  \<^item> \<open>Prompt s\<close>: the prompt that \<open>input(s)\<close> writes.
\<close>

datatype stdout_item =
    Line string
  | LineOf string json
  | LineDumps json
  | LineTypeError
  | Prompt string

record http_request =
  url :: string
  data :: string
  headers :: "(string \<times> string) list"

type_synonym query_params = "(string \<times> string list) list"

text \<open>
  Everything a run reads from outside:
  \<^item> \<open>environ\<close>: \<open>os.environ\<close>;
  \<^item> \<open>browser_raises\<close>: whether \<open>webbrowser.open\<close> raises;
  \<^item> \<open>stdin\<close>: the line \<open>input()\<close> returns, \<open>None\<close> at end of input;
  \<^item> \<open>port_free\<close>: whether port 8080 can be bound;
  \<^item> \<open>callbacks\<close>: the requests that reach the local listener, in order, each
    with the time in seconds, counted from the moment the main thread starts to wait,
    at which its handler is done, and the dict that
    \<open>parse_qs(urlparse(self.path).query)\<close> returns for it;
  \<^item> \<open>token_endpoint\<close>: what \<open>urlopen\<close> does with the token request;
  \<^item> \<open>files\<close>: the text files of the working directory, by name.
\<close>

record env =
  environ :: "string \<rightharpoonup> string"
  browser_raises :: bool
  stdin :: "string option"
  port_free :: bool
  callbacks :: "(real \<times> query_params) list"
  token_endpoint :: urlopen_result
  files :: "string \<rightharpoonup> string"

text \<open>
  What a run leaves behind: the main thread's standard output, the files, the requests
  sent with \<open>urlopen\<close>, and the exit status of the process.
\<close>

record outcome =
  stdout :: "stdout_item list"
  files_after :: "string \<rightharpoonup> string"
  posts :: "http_request list"
  exit_status :: int

definition getenv :: "env \<Rightarrow> string \<Rightarrow> string \<Rightarrow> string" where
  "getenv e name fallback = (case environ e name of None \<Rightarrow> fallback | Some v \<Rightarrow> v)"

definition rule70 :: string where
  "rule70 = replicate 70 (CHR ''='')"

definition print_value :: "string \<Rightarrow> json \<Rightarrow> stdout_item" where
  "print_value before v = (case v of JStr s \<Rightarrow> Line (before @ s) | _ \<Rightarrow> LineOf before v)"

text \<open>
  \<open>key in obj\<close> and \<open>obj[key]\<close> for a \<open>str\<close> key: \<open>None\<close> stands for the
  \<open>TypeError\<close> (or \<open>KeyError\<close>) that Python raises.
\<close>

fun py_contains :: "json \<Rightarrow> string \<Rightarrow> bool option" where
  "py_contains (JObj kvs) k = Some (map_of kvs k \<noteq> None)"
| "py_contains (JArr xs) k = Some (JStr k \<in> set xs)"
| "py_contains (JStr s) k = Some (sublist k s)"
| "py_contains _ k = None"

fun py_getitem :: "json \<Rightarrow> string \<Rightarrow> json option" where
  "py_getitem (JObj kvs) k = map_of kvs k"
| "py_getitem _ k = None"

section \<open>Step 2 of both scripts: the token exchange\<close>

definition token_url :: string where
  "token_url = ''https://oauth2.googleapis.com/token''"

definition token_request :: "string \<Rightarrow> string \<Rightarrow> string \<Rightarrow> string \<Rightarrow> http_request" where
  "token_request auth_code CLIENT_ID CLIENT_SECRET REDIRECT_URI =
     \<lparr>url = token_url,
      data = urlencode
        [(''code'', auth_code),
         (''client_id'', CLIENT_ID),
         (''client_secret'', CLIENT_SECRET),
         (''redirect_uri'', REDIRECT_URI),
         (''grant_type'', ''authorization_code'')],
      headers = [(''Content-Type'', ''application/x-www-form-urlencoded'')]\<rparr>"

text \<open>
  The body of the \<open>try\<close> block after \<open>tokens = json.loads(...)\<close>. The result is
  what was printed, the files, and whether a \<open>TypeError\<close> left the block.
  \<open>hint\<close> holds the lines of the warning that differ between the two scripts.
  \<open>open(..., "w")\<close> is taken to succeed; it empties the file before
  \<open>f.write\<close> is reached, and \<open>f.write\<close> raises for a value that is not a
  \<open>str\<close>.
\<close>

definition report_tokens ::
  "stdout_item list \<Rightarrow> json \<Rightarrow> (string \<rightharpoonup> string) \<Rightarrow> stdout_item list \<times> (string \<rightharpoonup> string) \<times> bool" where
  "report_tokens hint tokens fs =
     (case py_contains tokens ''refresh_token'' of
        None \<Rightarrow> ([], fs, True)
      | Some False \<Rightarrow>
          ([Line (''\<newline>'' @ rule70),
            Line ''WARNING: No refresh token in response!'',
            Line ''This might happen if you've already authorized this app before.'']
           @ hint @
           [Line rule70,
            Line ''\<newline>Response received:'',
            LineDumps tokens], fs, False)
      | Some True \<Rightarrow>
          (let out1 = [Line (''\<newline>'' @ rule70),
                       Line ''SUCCESS! Your refresh token:'',
                       Line rule70]
           in case py_getitem tokens ''refresh_token'' of
                None \<Rightarrow> (out1, fs, True)
              | Some v \<Rightarrow>
                  (let out2 = out1 @
                        [print_value [] v,
                         Line (''\<newline>'' @ rule70),
                         Line ''Save this as your GOOGLE_PHOTOS_REFRESH_TOKEN environment variable'',
                         Line rule70]
                   in case v of
                        JStr R \<Rightarrow>
                          (out2 @ [Line ''\<newline>Refresh token also saved to: refresh_token.txt''],
                           fs(''refresh_token.txt'' \<mapsto> R), False)
                      | _ \<Rightarrow> (out2, fs(''refresh_token.txt'' \<mapsto> []), True))))"

text \<open>
  The inner \<open>try\<close> of the \<open>HTTPError\<close> handler: the description is printed when
  the body parses to a dict that has the key; every exception is swallowed.
\<close>

definition error_description_line :: "json option \<Rightarrow> stdout_item list" where
  "error_description_line parsed =
     (case parsed of
        None \<Rightarrow> []
      | Some error_json \<Rightarrow>
          (if py_contains error_json ''error_description'' = Some True then
             (case py_getitem error_json ''error_description'' of
                None \<Rightarrow> []
              | Some d \<Rightarrow> [print_value ''\<newline>Error: '' d])
           else []))"

text \<open>
  The whole \<open>try\<close> statement, lines 98-149 of \<open>get_refresh_token.py\<close> and 160-210
  of \<open>get_refresh_token_localhost.py\<close>, run after \<open>out\<close> has been printed. The
  script ends after it, so the exit status is 0 unless an exception leaves a handler.
\<close>

definition exchange ::
  "stdout_item list \<Rightarrow> env \<Rightarrow> stdout_item list \<Rightarrow> http_request \<Rightarrow> outcome" where
  "exchange hint e out req =
     (case token_endpoint e of
        Response tokens \<Rightarrow>
          (case report_tokens hint tokens (files e) of
             (printed, fs, raised) \<Rightarrow>
               \<lparr>stdout = out @ printed @
                  (if raised then
                     [Line (''\<newline>'' @ rule70),
                      Line ''ERROR: An unexpected error occurred'',
                      Line rule70,
                      LineTypeError,
                      Line rule70]
                   else []),
                files_after = fs, posts = [req], exit_status = 0\<rparr>)
      | RaisesHTTPError code body parsed \<Rightarrow>
          (case body of
             None \<Rightarrow> \<lparr>stdout = out, files_after = files e, posts = [req], exit_status = 1\<rparr>
           | Some error_body \<Rightarrow>
               \<lparr>stdout = out @
                  [Line (''\<newline>'' @ rule70),
                   Line ''ERROR: Failed to exchange authorization code'',
                   Line rule70,
                   LineOf ''Status: '' (JInt code),
                   Line (''Response: '' @ error_body),
                   Line rule70]
                  @ error_description_line parsed,
                files_after = files e, posts = [req], exit_status = 0\<rparr>)
      | RaisesException msg \<Rightarrow>
          \<lparr>stdout = out @
             [Line (''\<newline>'' @ rule70),
              Line ''ERROR: An unexpected error occurred'',
              Line rule70,
              Line msg,
              Line rule70],
           files_after = files e, posts = [req], exit_status = 0\<rparr>)"

section \<open>The manual flow: \<open>get_refresh_token.py\<close>\<close>

definition credentials_error :: "stdout_item list" where
  "credentials_error =
     [Line ''ERROR: Please set GOOGLE_PHOTOS_CLIENT_ID and GOOGLE_PHOTOS_CLIENT_SECRET environment variables'',
      Line ''Or edit this script to replace YOUR_CLIENT_ID_HERE and YOUR_CLIENT_SECRET_HERE'']"

definition browser_lines :: "bool \<Rightarrow> stdout_item list" where
  "browser_lines raises =
     (if raises then [Line ''Could not open browser automatically. Please copy the URL above.'']
      else [Line ''Browser opened! Please authorize the application.''])"

definition manual_scopes :: "string list" where
  "manual_scopes =
     [''https://www.googleapis.com/auth/photoslibrary'',
      ''https://www.googleapis.com/auth/photoslibrary.appendonly'']"

definition manual_banner :: "string \<Rightarrow> string \<Rightarrow> stdout_item list" where
  "manual_banner REDIRECT_URI link =
     [Line rule70,
      Line ''Google Photos API - Refresh Token Generator'',
      Line rule70,
      Line ''\<newline>IMPORTANT: Before proceeding, make sure your OAuth client in Google Cloud Console'',
      Line ''has the redirect URI configured:'',
      Line (''  Redirect URI: '' @ REDIRECT_URI),
      Line ''\<newline>If you get an 'invalid_request' error, you need to:'',
      Line ''1. Go to Google Cloud Console > APIs & Services > Credentials'',
      Line ''2. Click on your OAuth 2.0 Client ID'',
      Line ''3. Add this redirect URI to 'Authorized redirect URIs':'',
      Line (''   '' @ REDIRECT_URI),
      Line ''4. Save and try again'',
      Line (''\<newline>'' @ rule70),
      Line ''\<newline>Step 1: Opening authorization URL in your browser...'',
      Line ''If the browser doesn't open automatically, copy this URL:'',
      Line (''\<newline>'' @ link @ ''\<newline>'')]"

definition manual_steps :: "string \<Rightarrow> stdout_item list" where
  "manual_steps REDIRECT_URI =
     Line (''\<newline>'' @ rule70) #
     (if prefix ''http://localhost'' REDIRECT_URI then
        [Line ''Step 2: After authorization, you'll be redirected to localhost'',
         Line ''Step 3: Check the URL in your browser - it will contain 'code=' parameter'',
         Line ''Step 4: Copy everything after 'code=' (before any '&' or end of URL)'',
         Line rule70]
      else
        [Line ''Step 2: After authorization, you'll see a page with an authorization code'',
         Line ''Step 3: Copy that code and paste it below'',
         Line rule70])"

definition manual_hint :: "stdout_item list" where
  "manual_hint =
     [Line ''Try revoking access and running this script again, or use'',
      Line ''the 'prompt=consent' parameter (which is already included).'']"

text \<open>
  The script from its first line to its last. \<open>exit(1)\<close> ends the run with status
  1, and so does the \<open>EOFError\<close> that \<open>input\<close> raises at end of input.
\<close>

definition manual_script :: "env \<Rightarrow> outcome" where
  "manual_script e =
     (let CLIENT_ID = getenv e ''GOOGLE_PHOTOS_CLIENT_ID'' ''YOUR_CLIENT_ID_HERE'';
          CLIENT_SECRET = getenv e ''GOOGLE_PHOTOS_CLIENT_SECRET'' ''YOUR_CLIENT_SECRET_HERE'';
          REDIRECT_URI = getenv e ''GOOGLE_PHOTOS_REDIRECT_URI'' ''urn:ietf:wg:oauth:2.0:oob''
      in
      if CLIENT_ID = ''YOUR_CLIENT_ID_HERE'' \<or> CLIENT_SECRET = ''YOUR_CLIENT_SECRET_HERE'' then
        \<lparr>stdout = credentials_error, files_after = files e, posts = [], exit_status = 1\<rparr>
      else
        (let out = manual_banner REDIRECT_URI (auth_url CLIENT_ID REDIRECT_URI manual_scopes)
                   @ browser_lines (browser_raises e)
                   @ manual_steps REDIRECT_URI
                   @ [Prompt ''\<newline>Enter the authorization code: '']
         in case stdin e of
              None \<Rightarrow> \<lparr>stdout = out, files_after = files e, posts = [], exit_status = 1\<rparr>
            | Some line \<Rightarrow>
                (let auth_code = strip line in
                 if auth_code = [] then
                   \<lparr>stdout = out @ [Line ''Error: No authorization code provided.''],
                    files_after = files e, posts = [], exit_status = 1\<rparr>
                 else
                   exchange manual_hint e
                     (out @ [Line ''\<newline>Exchanging authorization code for tokens...''])
                     (token_request auth_code CLIENT_ID CLIENT_SECRET REDIRECT_URI))))"

section \<open>The local-redirect flow: \<open>get_refresh_token_localhost.py\<close>\<close>

subsection \<open>The callback handler and the listener loop\<close>

record http_response =
  status :: nat
  content_type :: string
  body :: string

text \<open>
  The state the listener thread works on: the global \<open>auth_code\<close>, the event
  \<open>code_received\<close>, the responses written to clients so far, and the lines the
  thread has printed.
\<close>

record server_state =
  auth_code :: "string option"
  code_received :: bool
  responses :: "http_response list"
  printed :: "stdout_item list"

definition page :: "string list \<Rightarrow> string" where
  "page lines =
     concat (map (\<lambda>l. ''\<newline>'' @ replicate 12 (CHR '' '') @ l) lines)
     @ ''\<newline>'' @ replicate 12 (CHR '' '')"

definition success_response :: http_response where
  "success_response =
     \<lparr>status = 200, content_type = ''text/html'',
      body = page
        [''<html>'',
         ''<head><title>Authorization Successful</title></head>'',
         ''<body>'',
         ''<h1>Authorization Successful!</h1>'',
         ''<p>You can close this window and return to the terminal.</p>'',
         ''</body>'',
         ''</html>'']\<rparr>"

definition failure_response :: "string \<Rightarrow> string \<Rightarrow> http_response" where
  "failure_response error error_desc =
     \<lparr>status = 400, content_type = ''text/html'',
      body = page
        [''<html>'',
         ''<head><title>Authorization Failed</title></head>'',
         ''<body>'',
         ''<h1>Authorization Failed</h1>'',
         ''<p>Error: '' @ error @ ''</p>'',
         ''<p>'' @ error_desc @ ''</p>'',
         ''</body>'',
         ''</html>'']\<rparr>"

definition waiting_response :: http_response where
  "waiting_response =
     \<lparr>status = 200, content_type = ''text/html'',
      body = ''<html><body>Waiting for authorization...</body></html>''\<rparr>"

datatype py_error = IndexError

text \<open>
  \<open>OAuthHandler.do_GET\<close>, from the dict \<open>query_params\<close> on. \<open>xs[0]\<close> of an
  empty list raises \<open>IndexError\<close>. Writing to the client is taken to succeed.
\<close>

definition do_GET :: "server_state \<Rightarrow> query_params \<Rightarrow> py_error + server_state" where
  "do_GET st query_params =
     (case map_of query_params ''code'' of
        Some codes \<Rightarrow>
          (case codes of
             [] \<Rightarrow> Inl IndexError
           | c # _ \<Rightarrow>
               Inr (st\<lparr>auth_code := Some c,
                       responses := responses st @ [success_response],
                       code_received := True\<rparr>))
      | None \<Rightarrow>
          (case map_of query_params ''error'' of
             Some errors \<Rightarrow>
               (case errors of
                  [] \<Rightarrow> Inl IndexError
                | error # _ \<Rightarrow>
                    (case (case map_of query_params ''error_description'' of
                             None \<Rightarrow> [[]] | Some ds \<Rightarrow> ds) of
                       [] \<Rightarrow> Inl IndexError
                     | error_desc # _ \<Rightarrow>
                         Inr (st\<lparr>responses := responses st @ [failure_response error error_desc]\<rparr>)))
           | None \<Rightarrow> Inr (st\<lparr>responses := responses st @ [waiting_response]\<rparr>)))"

text \<open>
  \<open>httpd.handle_request()\<close> for one request: an exception that leaves the handler
  is caught and logged by the server, and the state stays as it was.
\<close>

definition handle_request :: "server_state \<Rightarrow> query_params \<Rightarrow> server_state" where
  "handle_request st query_params =
     (case do_GET st query_params of Inl _ \<Rightarrow> st | Inr st' \<Rightarrow> st')"

text \<open>
  The loop of \<open>start_local_server\<close> over the requests that arrive: the event is
  tested before each request is dispatched. When no request is left the thread blocks
  in \<open>handle_request\<close> until the process ends.
\<close>

fun serve :: "server_state \<Rightarrow> query_params list \<Rightarrow> server_state" where
  "serve st [] = st"
| "serve st (q # qs) = (if code_received st then st else serve (handle_request st q) qs)"

definition initial_state :: server_state where
  "initial_state = \<lparr>auth_code = None, code_received = False, responses = [], printed = []\<rparr>"

definition start_local_server :: "bool \<Rightarrow> query_params list \<Rightarrow> server_state" where
  "start_local_server bound requests =
     (if bound then
        serve (initial_state\<lparr>printed :=
                 [Line ''Local server started on http://localhost:8080'',
                  Line ''Waiting for OAuth redirect...'']\<rparr>) requests
      else initial_state)"

subsection \<open>The main thread\<close>

definition localhost_scopes :: "string list" where
  "localhost_scopes =
     [''https://www.googleapis.com/auth/photoslibrary.appendonly'',
      ''https://www.googleapis.com/auth/photoslibrary.readonly.appcreateddata'',
      ''https://www.googleapis.com/auth/photoslibrary.edit.appcreateddata'']"

definition localhost_banner :: "string \<Rightarrow> stdout_item list" where
  "localhost_banner link =
     [Line rule70,
      Line ''Google Photos API - Refresh Token Generator (Localhost Method)'',
      Line rule70,
      Line ''\<newline>IMPORTANT: Make sure your OAuth client in Google Cloud Console'',
      Line ''has this redirect URI configured:'',
      Line ''  http://localhost:8080'',
      Line ''\<newline>To add it:'',
      Line ''1. Go to Google Cloud Console > APIs & Services > Credentials'',
      Line ''2. Click on your OAuth 2.0 Client ID'',
      Line (''3. Under 'Authorized redirect URIs', click 'ADD URI'' @ [CHR 0x27]),
      Line ''4. Add: http://localhost:8080'',
      Line (''5. Click 'SAVE'' @ [CHR 0x27]),
      Line (''\<newline>'' @ rule70),
      Line ''\<newline>Step 1: Opening authorization URL in your browser...'',
      Line ''If the browser doesn't open automatically, copy this URL:'',
      Line (''\<newline>'' @ link @ ''\<newline>'')]"

definition localhost_hint :: "stdout_item list" where
  "localhost_hint = [Line ''Try revoking access and running this script again.'']"

text \<open>
  The listener as the main thread finds it when \<open>code_received.wait(timeout=300)\<close>
  returns: it has handled the callbacks that were done before the 300 seconds were over.
\<close>

definition listener :: "env \<Rightarrow> server_state" where
  "listener e =
     start_local_server (port_free e)
       (map snd (takeWhile (\<lambda>(t, query_params). t < 300) (callbacks e)))"

definition localhost_script :: "env \<Rightarrow> outcome" where
  "localhost_script e =
     (let CLIENT_ID = getenv e ''GOOGLE_PHOTOS_CLIENT_ID'' ''YOUR_CLIENT_ID_HERE'';
          CLIENT_SECRET = getenv e ''GOOGLE_PHOTOS_CLIENT_SECRET'' ''YOUR_CLIENT_SECRET_HERE'';
          REDIRECT_URI = ''http://localhost:8080''
      in
      if CLIENT_ID = ''YOUR_CLIENT_ID_HERE'' \<or> CLIENT_SECRET = ''YOUR_CLIENT_SECRET_HERE'' then
        \<lparr>stdout = credentials_error, files_after = files e, posts = [], exit_status = 1\<rparr>
      else
        (let out = localhost_banner (auth_url CLIENT_ID REDIRECT_URI localhost_scopes)
                   @ browser_lines (browser_raises e)
                   @ [Line ''\<newline>Waiting for authorization...'']
         in case auth_code (listener e) of
              None \<Rightarrow>
                \<lparr>stdout = out @ [Line ''\<newline>Timeout: No authorization code received.''],
                 files_after = files e, posts = [], exit_status = 1\<rparr>
            | Some code \<Rightarrow>
                if code = [] then
                  \<lparr>stdout = out @ [Line ''\<newline>Timeout: No authorization code received.''],
                   files_after = files e, posts = [], exit_status = 1\<rparr>
                else
                  exchange localhost_hint e
                    (out @ [Line ''\<newline>Authorization code received! Exchanging for tokens...''])
                    (token_request code CLIENT_ID CLIENT_SECRET REDIRECT_URI)))"

section \<open>Reading a URL back\<close>

text \<open>
  The vocabulary in which the properties of the authorization URL are stated. The
  query of a URL is what stands between the first \<open>?\<close> and the fragment; its
  parameters are the pieces between \<open>&\<close>, each split at its first \<open>=\<close>, with name
  and value percent-decoded. A string is percent-encoded when it consists of unreserved
  characters, reserved characters and escapes \<open>%XX\<close> with two hexadecimal digits
  (RFC 3986).
\<close>

fun split_on :: "char \<Rightarrow> string \<Rightarrow> string list" where
  "split_on sep [] = [[]]"
| "split_on sep (c # cs) =
     (if c = sep then [] # split_on sep cs
      else (case split_on sep cs of [] \<Rightarrow> [[c]] | w # ws \<Rightarrow> (c # w) # ws))"

definition url_query :: "string \<Rightarrow> string" where
  "url_query link =
     drop 1 (dropWhile (\<lambda>c. c \<noteq> CHR ''?'') (takeWhile (\<lambda>c. c \<noteq> CHR ''#'') link))"

definition hexval :: "char \<Rightarrow> nat option" where
  "hexval c =
     (if c \<in> set ''0123456789'' then Some (of_char c - 48)
      else if c \<in> set ''ABCDEF'' then Some (of_char c - 55)
      else if c \<in> set ''abcdef'' then Some (of_char c - 87)
      else None)"

fun unquote :: "string \<Rightarrow> string" where
  "unquote (c # h # l # cs) =
     (if c = CHR ''%'' then
        (case (hexval h, hexval l) of
           (Some a, Some b) \<Rightarrow> char_of (a * 16 + b) # unquote cs
         | _ \<Rightarrow> c # unquote (h # l # cs))
      else c # unquote (h # l # cs))"
| "unquote cs = cs"

definition partition_eq :: "string \<Rightarrow> string \<times> string" where
  "partition_eq s =
     (takeWhile (\<lambda>c. c \<noteq> CHR ''='') s, drop 1 (dropWhile (\<lambda>c. c \<noteq> CHR ''='') s))"

definition query_pairs :: "string \<Rightarrow> (string \<times> string) list" where
  "query_pairs q =
     map (\<lambda>p. (unquote (fst (partition_eq p)), unquote (snd (partition_eq p))))
       (filter (\<lambda>p. p \<noteq> []) (split_on CHR ''&'' q))"

definition param_values :: "string \<Rightarrow> string \<Rightarrow> string list" where
  "param_values name link = map snd (filter (\<lambda>p. fst p = name) (query_pairs (url_query link)))"

definition reserved :: "char \<Rightarrow> bool" where
  "reserved c \<longleftrightarrow> c \<in> set (CHR 0x27 # '':/?#[]@!$&()+,;=*'')"

fun percent_encoded :: "string \<Rightarrow> bool" where
  "percent_encoded [] = True"
| "percent_encoded (c # cs) =
     (if c = CHR ''%'' then
        (case cs of h # l # r \<Rightarrow> hexval h \<noteq> None \<and> hexval l \<noteq> None \<and> percent_encoded r
         | _ \<Rightarrow> False)
      else (always_safe c \<or> reserved c) \<and> percent_encoded cs)"

definition param :: "string \<Rightarrow> string \<Rightarrow> string" where
  "param k v = k @ CHR ''='' # v"

section \<open>Conditions on a run\<close>

text \<open>
  \<open>configured\<close>: both credentials are set, so the run gets past the first check.
  \<open>code_entered\<close>: the operator's line is not empty after stripping.
  \<open>code_captured\<close>: the listener holds a non-empty code when the wait is over.
  \<open>carries_code\<close>: the request's query has a \<open>code\<close> parameter with a value.
  \<open>error_reported\<close>: one of the two error headings of the exchange was printed.
\<close>

definition configured :: "env \<Rightarrow> bool" where
  "configured e \<longleftrightarrow>
     getenv e ''GOOGLE_PHOTOS_CLIENT_ID'' ''YOUR_CLIENT_ID_HERE'' \<noteq> ''YOUR_CLIENT_ID_HERE'' \<and>
     getenv e ''GOOGLE_PHOTOS_CLIENT_SECRET'' ''YOUR_CLIENT_SECRET_HERE'' \<noteq> ''YOUR_CLIENT_SECRET_HERE''"

definition code_entered :: "env \<Rightarrow> bool" where
  "code_entered e \<longleftrightarrow> (case stdin e of None \<Rightarrow> False | Some line \<Rightarrow> strip line \<noteq> [])"

definition code_captured :: "env \<Rightarrow> bool" where
  "code_captured e \<longleftrightarrow> (case auth_code (listener e) of None \<Rightarrow> False | Some code \<Rightarrow> code \<noteq> [])"

definition carries_code :: "query_params \<Rightarrow> bool" where
  "carries_code q \<longleftrightarrow> (case map_of q ''code'' of Some (c # _) \<Rightarrow> True | _ \<Rightarrow> False)"


text \<open>
  A run in which everything goes well, for use in examples: the operator pastes the code
  with a blank on either side, the browser is redirected after twelve seconds, and the
  token endpoint answers with a refresh token while an older token file exists.
\<close>

definition example_env :: env where
  "example_env =
     \<lparr>environ = map_of
        [(''GOOGLE_PHOTOS_CLIENT_ID'', ''1234-abc.apps.googleusercontent.com''),
         (''GOOGLE_PHOTOS_CLIENT_SECRET'', ''s3cret'')],
      browser_raises = False,
      stdin = Some '' 4/0AbC '',
      port_free = True,
      callbacks = [(2, []), (12, [(''code'', [''4/0AbC''])])],
      token_endpoint =
        Response (JObj [(''refresh_token'', JStr ''R1''), (''access_token'', JStr ''A1'')]),
      files = map_of [(''refresh_token.txt'', ''old'')]\<rparr>"


section \<open>Facts about quoting and the URL\<close>

lemma hexval_hexdigit: "n < 16 \<Longrightarrow> hexval (hexdigit n) = Some n"
proof -
  have "\<forall>n \<in> set [0..<16]. hexval (hexdigit n) = Some n"
    by code_simp
  then show "n < 16 \<Longrightarrow> hexval (hexdigit n) = Some n" by simp
qed

lemma unquote_plain: "c \<noteq> CHR ''%'' \<Longrightarrow> unquote (c # cs) = c # unquote cs"
  by (cases cs rule: unquote.cases) auto

lemma always_safe_not_special:
  "always_safe c \<Longrightarrow> c \<noteq> CHR ''%'' \<and> c \<noteq> CHR ''&'' \<and> c \<noteq> CHR ''='' \<and> c \<noteq> CHR ''#'' \<and> c \<noteq> CHR ''?''"
  by (auto simp: always_safe_def)

lemma always_safe_hexdigit: "n < 16 \<Longrightarrow> always_safe (hexdigit n)"
proof -
  have "\<forall>n \<in> set [0..<16]. always_safe (hexdigit n)"
    by code_simp
  then show "n < 16 \<Longrightarrow> always_safe (hexdigit n)" by simp
qed

lemma unquote_quote_byte:
  assumes "CHR ''%'' \<notin> set safe"
  shows "unquote (quote_byte safe c @ r) = c # unquote r"
proof (cases "always_safe c \<or> c \<in> set safe")
  case True
  with assms have "c \<noteq> CHR ''%''"
    using always_safe_not_special by blast
  with True show ?thesis
    by (simp add: quote_byte_def unquote_plain)
next
  case False
  have hi: "hexval (hexdigit (of_char c div 16)) = Some (of_char c div 16)"
    by (rule hexval_hexdigit) (simp add: less_mult_imp_div_less)
  have lo: "hexval (hexdigit (of_char c mod 16)) = Some (of_char c mod 16)"
    by (rule hexval_hexdigit) simp
  from False show ?thesis
    by (simp add: quote_byte_def hi lo)
qed

lemma unquote_quote: "CHR ''%'' \<notin> set safe \<Longrightarrow> unquote (quote safe s) = s"
proof (induction s)
  case Nil
  then show ?case by (simp add: quote_def)
next
  case (Cons c s)
  then show ?case
    using unquote_quote_byte [of safe c "quote safe s"] by (simp add: quote_def)
qed

lemma unquote_safe: "\<forall>c \<in> set s. always_safe c \<Longrightarrow> unquote s = s"
proof (induction s)
  case Nil
  then show ?case by simp
next
  case (Cons c s)
  then have "c \<noteq> CHR ''%''" using always_safe_not_special by simp
  with Cons show ?case by (simp add: unquote_plain)
qed

lemma quote_chars:
  "x \<in> set (quote safe s) \<Longrightarrow> always_safe x \<or> x \<in> set safe \<or> x = CHR ''%''"
  by (auto simp: quote_def quote_byte_def always_safe_hexdigit less_mult_imp_div_less
      split: if_splits)

lemma quote_slash_chars:
  "x \<in> set (quote ''/'' s) \<Longrightarrow> x \<noteq> CHR ''&'' \<and> x \<noteq> CHR ''='' \<and> x \<noteq> CHR ''#'' \<and> x \<noteq> CHR ''?''"
  using quote_chars [of x "''/''" s] always_safe_not_special [of x] by auto

lemma split_on_single: "sep \<notin> set a \<Longrightarrow> split_on sep a = [a]"
  by (induction a) auto

lemma split_on_append: "sep \<notin> set a \<Longrightarrow> split_on sep (a @ sep # r) = a # split_on sep r"
  by (induction a) auto

lemma takeWhile_upto: "x \<notin> set a \<Longrightarrow> takeWhile (\<lambda>c. c \<noteq> x) (a @ x # r) = a"
  by (induction a) auto

lemma dropWhile_upto: "x \<notin> set a \<Longrightarrow> dropWhile (\<lambda>c. c \<noteq> x) (a @ x # r) = x # r"
  by (induction a) auto

lemma takeWhile_all: "x \<notin> set a \<Longrightarrow> takeWhile (\<lambda>c. c \<noteq> x) a = a"
  by (induction a) auto

lemma partition_eq_pair:
  "CHR ''='' \<notin> set k \<Longrightarrow> partition_eq (k @ CHR ''='' # v) = (k, v)"
  by (simp add: partition_eq_def takeWhile_upto dropWhile_upto)

lemma url_query_after:
  "CHR ''?'' \<notin> set b \<Longrightarrow> CHR ''#'' \<notin> set b \<Longrightarrow> CHR ''#'' \<notin> set q \<Longrightarrow>
   url_query (b @ CHR ''?'' # q) = q"
  by (simp add: url_query_def takeWhile_all dropWhile_upto)

lemma percent_encoded_append:
  "percent_encoded a \<Longrightarrow> percent_encoded b \<Longrightarrow> percent_encoded (a @ b)"
  by (induction a rule: percent_encoded.induct) (auto split: list.splits)

lemma percent_encoded_safe: "\<forall>c \<in> set s. always_safe c \<Longrightarrow> percent_encoded s"
  by (induction s) (auto simp: always_safe_def)

lemma percent_encoded_quote_byte: "percent_encoded (quote_byte ''/'' c)"
  by (auto simp: quote_byte_def reserved_def hexval_hexdigit less_mult_imp_div_less always_safe_def)

lemma percent_encoded_quote: "percent_encoded (quote ''/'' s)"
  by (induction s) (simp_all add: quote_def percent_encoded_append percent_encoded_quote_byte)

lemma split_on_join:
  "ps \<noteq> [] \<Longrightarrow> \<forall>p \<in> set ps. sep \<notin> set p \<Longrightarrow> split_on sep (join [sep] ps) = ps"
proof (induction "[sep]" ps rule: join.induct)
  case 1
  then show ?case by simp
next
  case (2 x)
  then show ?case by (simp add: split_on_single)
next
  case (3 x y ys)
  then show ?case by (simp add: split_on_append del: split_on.simps)
qed

lemma partition_eq_param: "CHR ''='' \<notin> set k \<Longrightarrow> partition_eq (param k v) = (k, v)"
  by (simp add: param_def partition_eq_pair)

lemma auth_url_split:
  "auth_url cid ruri scopes =
     ''https://accounts.google.com/o/oauth2/v2/auth'' @ CHR ''?'' #
     join ''&'' [param ''client_id'' cid, param ''redirect_uri'' (quote ''/'' ruri),
       param ''response_type'' ''code'', param ''scope'' (quote ''/'' (scope_string scopes)),
       param ''access_type'' ''offline'', param ''prompt'' ''consent'']"
  by (simp add: auth_url_def param_def)

lemma query_pairs_auth_url:
  assumes "\<forall>c \<in> set cid. always_safe c"
  shows "query_pairs (url_query (auth_url cid ruri scopes)) =
    [(''client_id'', cid), (''redirect_uri'', ruri), (''response_type'', ''code''),
     (''scope'', scope_string scopes), (''access_type'', ''offline''), (''prompt'', ''consent'')]"
proof -
  let ?ps = "[param ''client_id'' cid, param ''redirect_uri'' (quote ''/'' ruri),
       param ''response_type'' ''code'', param ''scope'' (quote ''/'' (scope_string scopes)),
       param ''access_type'' ''offline'', param ''prompt'' ''consent'']"
  have cid: "CHR ''&'' \<notin> set cid" "CHR ''#'' \<notin> set cid"
    using assms always_safe_not_special by blast+
  have q: "CHR ''&'' \<notin> set (quote ''/'' s)" "CHR ''#'' \<notin> set (quote ''/'' s)" for s
    using quote_slash_chars by blast+
  have amp: "\<forall>p \<in> set ?ps. CHR ''&'' \<notin> set p"
    by (simp add: param_def cid q)
  have hash: "\<forall>p \<in> set ?ps. CHR ''#'' \<notin> set p"
    by (simp add: param_def cid q)
  have "CHR ''#'' \<notin> set (join ''&'' ?ps)"
    by (simp add: param_def cid q)
  then have "url_query (auth_url cid ruri scopes) = join ''&'' ?ps"
    unfolding auth_url_split by (intro url_query_after) simp_all
  moreover have "split_on CHR ''&'' (join ''&'' ?ps) = ?ps"
    by (rule split_on_join) (use amp in simp_all)
  ultimately have sp: "split_on CHR ''&'' (url_query (auth_url cid ruri scopes)) = ?ps"
    by simp
  have ne: "param k v \<noteq> []" for k v
    by (simp add: param_def)
  show ?thesis
    unfolding query_pairs_def sp
    by (simp add: partition_eq_param ne unquote_quote unquote_safe assms)
qed

lemma percent_encoded_auth_url:
  assumes "\<forall>c \<in> set cid. always_safe c"
  shows "percent_encoded (auth_url cid ruri scopes)"
proof -
  have 1: "percent_encoded cid"
    using assms by (rule percent_encoded_safe)
  have 2: "percent_encoded (quote ''/'' s)" for s
    by (rule percent_encoded_quote)
  have 3: "percent_encoded ''https://accounts.google.com/o/oauth2/v2/auth?client_id=''"
    by (simp add: always_safe_def reserved_def)
  have 4: "percent_encoded ''&redirect_uri=''" "percent_encoded ''&response_type=code&scope=''"
    "percent_encoded ''&access_type=offline&prompt=consent''"
    by (simp_all add: always_safe_def reserved_def)
  have "auth_url cid ruri scopes =
     ''https://accounts.google.com/o/oauth2/v2/auth?client_id='' @ (cid @ (''&redirect_uri='' @
     (quote ''/'' ruri @ (''&response_type=code&scope='' @ (quote ''/'' (scope_string scopes) @
      ''&access_type=offline&prompt=consent'')))))"
    by (simp add: auth_url_def)
  then show ?thesis
    by (simp only: percent_encoded_append 1 2 3 4)
qed

section \<open>Facts about stripping\<close>



lemma ws_suffix_None: "ws_suffix s = None \<longleftrightarrow> (\<forall>w \<in> set whitespace. \<not> suffix w s)"
  by (auto simp: ws_suffix_def find_None_iff)






lemma lstrip_Nil: "lstrip [] = []"
  by (subst lstrip.simps) (simp add: ws_prefix_def whitespace_def)

lemma rstrip_Nil: "rstrip [] = []"
  by (subst rstrip.simps) (simp add: ws_suffix_def whitespace_def)










section \<open>Facts about the handler and the listener loop\<close>

lemma do_GET_code:
  "map_of q ''code'' = Some (c # cs) \<Longrightarrow>
   do_GET st q = Inr (st\<lparr>auth_code := Some c, responses := responses st @ [success_response],
                          code_received := True\<rparr>)"
  by (simp add: do_GET_def)






lemma success_not_failure: "success_response \<noteq> failure_response x d"
  by (simp add: success_response_def failure_response_def)

lemma success_not_waiting: "success_response \<noteq> waiting_response"
  by (simp add: success_response_def waiting_response_def page_def)

lemma handle_request_other:
  assumes "\<not> carries_code p"
  shows "\<exists>rs. success_response \<notin> set rs \<and> handle_request st p = st\<lparr>responses := responses st @ rs\<rparr>"
proof -
  have "handle_request st p = st\<lparr>responses := responses st @ []\<rparr>
      \<or> (\<exists>x d. handle_request st p = st\<lparr>responses := responses st @ [failure_response x d]\<rparr>)
      \<or> handle_request st p = st\<lparr>responses := responses st @ [waiting_response]\<rparr>"
    using assms
    by (auto simp: carries_code_def handle_request_def do_GET_def split: option.splits list.splits)
  then show ?thesis
  proof (elim disjE exE)
    assume "handle_request st p = st\<lparr>responses := responses st @ []\<rparr>"
    then have "success_response \<notin> set [] \<and> handle_request st p = st\<lparr>responses := responses st @ []\<rparr>"
      by simp
    then show ?thesis by blast
  next
    fix x d
    assume "handle_request st p = st\<lparr>responses := responses st @ [failure_response x d]\<rparr>"
    then have "success_response \<notin> set [failure_response x d] \<and>
        handle_request st p = st\<lparr>responses := responses st @ [failure_response x d]\<rparr>"
      using success_not_failure by simp
    then show ?thesis by blast
  next
    assume "handle_request st p = st\<lparr>responses := responses st @ [waiting_response]\<rparr>"
    then have "success_response \<notin> set [waiting_response] \<and>
        handle_request st p = st\<lparr>responses := responses st @ [waiting_response]\<rparr>"
      using success_not_waiting by simp
    then show ?thesis by blast
  qed
qed

lemma serve_done: "code_received st \<Longrightarrow> serve st qs = st"
  by (cases qs) simp_all

lemma serve_others:
  assumes "\<forall>p \<in> set before. \<not> carries_code p" and "\<not> code_received st"
  shows "\<exists>rs. success_response \<notin> set rs \<and>
           (\<forall>rest. serve st (before @ rest) = serve (st\<lparr>responses := responses st @ rs\<rparr>) rest)"
  using assms
proof (induction before arbitrary: st)
  case Nil
  have "success_response \<notin> set [] \<and>
      (\<forall>rest. serve st ([] @ rest) = serve (st\<lparr>responses := responses st @ []\<rparr>) rest)"
    by simp
  then show ?case by blast
next
  case (Cons p before)
  then have "\<not> carries_code p" by simp
  then obtain r1 where r1: "success_response \<notin> set r1"
      "handle_request st p = st\<lparr>responses := responses st @ r1\<rparr>"
    using handle_request_other by blast
  let ?st = "st\<lparr>responses := responses st @ r1\<rparr>"
  from Cons.prems have "\<forall>p \<in> set before. \<not> carries_code p" and "\<not> code_received ?st"
    by simp_all
  from Cons.IH [OF this] obtain r2 where r2: "success_response \<notin> set r2"
      "\<And>rest. serve ?st (before @ rest) = serve (?st\<lparr>responses := responses ?st @ r2\<rparr>) rest"
    by blast
  from Cons.prems r1 r2 have
    "success_response \<notin> set (r1 @ r2) \<and>
     (\<forall>rest. serve st ((p # before) @ rest) =
        serve (st\<lparr>responses := responses st @ (r1 @ r2)\<rparr>) rest)"
    by simp
  then show ?case by blast
qed

lemma serve_first_code:
  assumes "\<forall>p \<in> set before. \<not> carries_code p" and "map_of q ''code'' = Some (c # cs)"
    and "\<not> code_received st"
  shows "\<exists>rs. success_response \<notin> set rs \<and>
           (\<forall>rest. serve st (before @ q # rest) =
             st\<lparr>auth_code := Some c, responses := responses st @ rs @ [success_response],
                code_received := True\<rparr>)"
proof -
  from serve_others [OF assms(1,3)] obtain rs where rs: "success_response \<notin> set rs"
      "\<And>rest. serve st (before @ rest) = serve (st\<lparr>responses := responses st @ rs\<rparr>) rest"
    by blast
  have "serve (st\<lparr>responses := responses st @ rs\<rparr>) (q # rest) =
      st\<lparr>auth_code := Some c, responses := responses st @ rs @ [success_response],
         code_received := True\<rparr>" for rest
    using assms(2,3) by (simp add: handle_request_def do_GET_code serve_done)
  with rs show ?thesis by auto
qed

lemma serve_no_code:
  assumes "\<forall>p \<in> set qs. \<not> carries_code p" and "\<not> code_received st"
  shows "\<exists>rs. success_response \<notin> set rs \<and> serve st qs = st\<lparr>responses := responses st @ rs\<rparr>"
  using serve_others [OF assms] by (metis append_Nil2 serve.simps(1))

lemma split_first_code:
  "(\<forall>p \<in> set qs. \<not> carries_code p) \<or>
   (\<exists>before q rest. qs = before @ q # rest \<and> (\<forall>p \<in> set before. \<not> carries_code p) \<and> carries_code q)"
proof (cases "\<forall>p \<in> set qs. \<not> carries_code p")
  case True
  then show ?thesis by simp
next
  case False
  then have "\<exists>q \<in> set qs. carries_code q" by simp
  then obtain before q rest where "qs = before @ q # rest" "carries_code q"
      "\<forall>p \<in> set before. \<not> carries_code p"
    using split_list_first_prop [of qs carries_code] by blast
  then show ?thesis by blast
qed

lemma carries_codeD: "carries_code q \<Longrightarrow> \<exists>c cs. map_of q ''code'' = Some (c # cs)"
  by (auto simp: carries_code_def split: option.splits list.splits)

lemma filter_absent: "x \<notin> set xs \<Longrightarrow> filter (\<lambda>r. r = x) xs = []"
  by (induction xs) auto

lemma serve_at_most_one:
  assumes "\<not> code_received st" "success_response \<notin> set (responses st)"
  shows "length (filter (\<lambda>r. r = success_response) (responses (serve st qs))) \<le> 1"
proof -
  consider (none) "\<forall>p \<in> set qs. \<not> carries_code p"
    | (some) before q rest where "qs = before @ q # rest" "\<forall>p \<in> set before. \<not> carries_code p"
        "carries_code q"
    using split_first_code [of qs] by blast
  then show ?thesis
  proof cases
    case none
    from serve_no_code [OF none assms(1)] obtain rs where
      "success_response \<notin> set rs" "serve st qs = st\<lparr>responses := responses st @ rs\<rparr>"
      by blast
    with assms(2) show ?thesis by (simp add: filter_absent)
  next
    case some
    from some(3) obtain c cs where "map_of q ''code'' = Some (c # cs)"
      using carries_codeD by blast
    from serve_first_code [OF some(2) this assms(1)] some(1) obtain rs where
      "success_response \<notin> set rs"
      "serve st qs = st\<lparr>auth_code := Some c, responses := responses st @ rs @ [success_response],
                code_received := True\<rparr>"
      by blast
    with assms(2) show ?thesis by (simp add: filter_absent)
  qed
qed

lemma start_local_server_at_most_one:
  "length (filter (\<lambda>r. r = success_response) (responses (start_local_server bound requests))) \<le> 1"
  using serve_at_most_one [of "initial_state\<lparr>printed :=
                 [Line ''Local server started on http://localhost:8080'',
                  Line ''Waiting for OAuth redirect...'']\<rparr>" requests]
  by (simp add: start_local_server_def initial_state_def)

lemma start_local_server_first_code:
  assumes "\<forall>p \<in> set before. \<not> carries_code p" and "map_of q ''code'' = Some (c # cs)"
  shows "\<exists>rs. success_response \<notin> set rs \<and>
    (\<forall>rest. start_local_server True (before @ q # rest) =
       \<lparr>auth_code = Some c, code_received = True, responses = rs @ [success_response],
        printed = [Line ''Local server started on http://localhost:8080'',
                   Line ''Waiting for OAuth redirect...'']\<rparr>)"
proof -
  let ?st = "initial_state\<lparr>printed :=
                 [Line ''Local server started on http://localhost:8080'',
                  Line ''Waiting for OAuth redirect...'']\<rparr>"
  have "\<not> code_received ?st" by (simp add: initial_state_def)
  from serve_first_code [OF assms this] obtain rs where "success_response \<notin> set rs"
    "\<And>rest. serve ?st (before @ q # rest) =
       ?st\<lparr>auth_code := Some c, responses := responses ?st @ rs @ [success_response],
                code_received := True\<rparr>"
    by blast
  then have "success_response \<notin> set rs \<and>
    (\<forall>rest. start_local_server True (before @ q # rest) =
       \<lparr>auth_code = Some c, code_received = True, responses = rs @ [success_response],
        printed = [Line ''Local server started on http://localhost:8080'',
                   Line ''Waiting for OAuth redirect...'']\<rparr>)"
    by (simp add: start_local_server_def initial_state_def)
  then show ?thesis by blast
qed

lemma listener_no_code:
  assumes "\<forall>(t, q) \<in> set (callbacks e). t < 300 \<longrightarrow> \<not> carries_code q"
  shows "auth_code (listener e) = None"
proof (cases "port_free e")
  case False
  then show ?thesis by (simp add: listener_def start_local_server_def initial_state_def)
next
  case True
  let ?qs = "map snd (takeWhile (\<lambda>(t, query_params). t < 300) (callbacks e))"
  let ?st = "initial_state\<lparr>printed :=
                 [Line ''Local server started on http://localhost:8080'',
                  Line ''Waiting for OAuth redirect...'']\<rparr>"
  have "\<forall>p \<in> set ?qs. \<not> carries_code p"
    using assms by (auto dest!: set_takeWhileD)
  moreover have "\<not> code_received ?st" by (simp add: initial_state_def)
  ultimately obtain rs where "serve ?st ?qs = ?st\<lparr>responses := responses ?st @ rs\<rparr>"
    using serve_no_code by blast
  with True show ?thesis
    by (simp add: listener_def start_local_server_def initial_state_def)
qed

section \<open>Facts about the two scripts\<close>



lemma exchange_refresh:
  assumes "token_endpoint e = Response (JObj kvs)" "map_of kvs ''refresh_token'' = Some (JStr R)"
  shows "Line R \<in> set (stdout (exchange hint e out req)) \<and>
         files_after (exchange hint e out req) = (files e)(''refresh_token.txt'' \<mapsto> R) \<and>
         exit_status (exchange hint e out req) = 0"
  using assms by (simp add: exchange_def report_tokens_def print_value_def)


lemma manual_script_exchange:
  assumes "configured e" "stdin e = Some line" "strip line \<noteq> []"
  shows "\<exists>out. manual_script e = exchange manual_hint e out
           (token_request (strip line)
              (getenv e ''GOOGLE_PHOTOS_CLIENT_ID'' ''YOUR_CLIENT_ID_HERE'')
              (getenv e ''GOOGLE_PHOTOS_CLIENT_SECRET'' ''YOUR_CLIENT_SECRET_HERE'')
              (getenv e ''GOOGLE_PHOTOS_REDIRECT_URI'' ''urn:ietf:wg:oauth:2.0:oob''))"
  using assms by (simp add: manual_script_def configured_def Let_def) blast

lemma localhost_script_exchange:
  assumes "configured e" "auth_code (listener e) = Some code" "code \<noteq> []"
  shows "\<exists>out. localhost_script e = exchange localhost_hint e out
           (token_request code
              (getenv e ''GOOGLE_PHOTOS_CLIENT_ID'' ''YOUR_CLIENT_ID_HERE'')
              (getenv e ''GOOGLE_PHOTOS_CLIENT_SECRET'' ''YOUR_CLIENT_SECRET_HERE'')
              ''http://localhost:8080'')"
  using assms by (simp add: localhost_script_def configured_def Let_def) blast

lemma manual_script_aborts:
  assumes "stdin e = Some line" "strip line = []"
  shows "exit_status (manual_script e) = 1 \<and> posts (manual_script e) = [] \<and>
         files_after (manual_script e) = files e"
  using assms by (simp add: manual_script_def Let_def)


lemma localhost_script_timeout:
  assumes "configured e" "auth_code (listener e) = None"
  shows "exit_status (localhost_script e) = 1 \<and> posts (localhost_script e) = [] \<and>
         last (stdout (localhost_script e)) = Line ''\<newline>Timeout: No authorization code received.''"
  using assms by (simp add: localhost_script_def configured_def Let_def)

section \<open>The example run\<close>

lemma strip_example: "strip '' 4/0AbC '' = ''4/0AbC''"
  by code_simp


lemma configured_example: "configured example_env"
  by (simp add: configured_def example_env_def getenv_def)

lemma code_entered_example: "code_entered example_env"
  by (simp add: code_entered_def example_env_def strip_example)

lemma listener_example: "auth_code (listener example_env) = Some ''4/0AbC''"
  by (simp add: listener_def example_env_def start_local_server_def initial_state_def
      handle_request_def do_GET_def)

lemma code_captured_example: "code_captured example_env"
  by (simp add: code_captured_def listener_example)

section \<open>The claims\<close>

subsection \<open>C1: the listener stops after the first code\<close>

text \<open>
  Claim C1, as amended. In the local-redirect flow at most one authorization code is
  captured per run (the success page is written at most once), and the listener
  dispatches no request after the first callback that carries a code: whatever follows
  that callback leaves the state as it is after it, with its code captured and the event
  set. Callbacks before it that carry no code, error callbacks among them, do not stop
  the listener.
\<close>

theorem listener_stops_at_first_code:
  assumes "\<forall>p \<in> set before. \<not> carries_code p" and "map_of q ''code'' = Some (c # cs)"
  shows "start_local_server True (before @ q # rest) = start_local_server True (before @ [q]) \<and>
         auth_code (start_local_server True (before @ q # rest)) = Some c \<and>
         code_received (start_local_server True (before @ q # rest)) \<and>
         length (filter (\<lambda>r. r = success_response)
           (responses (start_local_server bound requests))) \<le> 1"
proof -
  from start_local_server_first_code [OF assms] obtain rs where
    "\<And>rest. start_local_server True (before @ q # rest) =
       \<lparr>auth_code = Some c, code_received = True, responses = rs @ [success_response],
        printed = [Line ''Local server started on http://localhost:8080'',
                   Line ''Waiting for OAuth redirect...'']\<rparr>"
    by blast
  from this [of rest] this [of "[]"] start_local_server_at_most_one [of bound requests]
  show ?thesis by simp
qed

theorem listener_stops_at_first_code_witness:
  "\<not> carries_code [(''error'', [''access_denied''])] \<and> \<not> carries_code [] \<and>
   map_of [(''code'', [''ABC''])] ''code'' = Some (''ABC'' # []) \<and>
   start_local_server True ([[(''error'', [''access_denied''])], []] @ [(''code'', [''ABC''])] # [[(''code'', [''XYZ''])]])
     = start_local_server True ([[(''error'', [''access_denied''])], []] @ [[(''code'', [''ABC''])]]) \<and>
   auth_code (start_local_server True
     ([[(''error'', [''access_denied''])], []] @ [(''code'', [''ABC''])] # [[(''code'', [''XYZ''])]])) = Some ''ABC''"
proof -
  have h0: "\<not> carries_code [(''error'', [''access_denied''])]" "\<not> carries_code []"
    by (simp_all add: carries_code_def)
  then have h1: "\<forall>p \<in> set [[(''error'', [''access_denied''])], []]. \<not> carries_code p"
    by simp
  have h2: "map_of [(''code'', [''ABC''])] ''code'' = Some (''ABC'' # [])"
    by simp
  from listener_stops_at_first_code [OF h1 h2, of "[[(''code'', [''XYZ''])]]" True "[]"] h0 h2
  show ?thesis by blast
qed

text \<open>
  The claim as the specification words it also lets an error callback end the listening.
  It does not: after an error callback the next request is dispatched and answered.
\<close>

theorem error_callback_keeps_listening:
  "responses (start_local_server True [[(''error'', [''access_denied''])], [(''code'', [''ABC''])]])
     = [failure_response ''access_denied'' [], success_response] \<and>
   auth_code (start_local_server True [[(''error'', [''access_denied''])], [(''code'', [''ABC''])]])
     = Some ''ABC''"
  by (simp add: start_local_server_def initial_state_def handle_request_def do_GET_def)

subsection \<open>C2: a failed exchange\<close>




subsection \<open>C3: the authorization URL\<close>

text \<open>
  Claim C3, as amended. For any ordered scope list, any redirect URI, and any client id
  made of unreserved characters only (letters, digits, \<open>_\<close>, \<open>.\<close>, \<open>-\<close>, \<open>~\<close>), the
  authorization URL has exactly one \<open>scope\<close> parameter, whose decoded value is the
  space-joined list in its original order; its parameters are, decoded and in this
  order, the client id, the redirect URI, \<open>response_type=code\<close>, the scope,
  \<open>access_type=offline\<close> and \<open>prompt=consent\<close>; and the whole URL is
  percent-encoded. The client id itself is put into the URL as it is.
\<close>

theorem auth_url_parameters:
  assumes "\<forall>c \<in> set CLIENT_ID. always_safe c"
  shows "param_values ''scope'' (auth_url CLIENT_ID REDIRECT_URI scopes) = [join '' '' scopes] \<and>
         query_pairs (url_query (auth_url CLIENT_ID REDIRECT_URI scopes)) =
           [(''client_id'', CLIENT_ID), (''redirect_uri'', REDIRECT_URI),
            (''response_type'', ''code''), (''scope'', join '' '' scopes),
            (''access_type'', ''offline''), (''prompt'', ''consent'')] \<and>
         percent_encoded (auth_url CLIENT_ID REDIRECT_URI scopes)"
  using query_pairs_auth_url [OF assms, of REDIRECT_URI scopes]
    percent_encoded_auth_url [OF assms, of REDIRECT_URI scopes]
  by (simp add: param_values_def scope_string_def)

theorem auth_url_parameters_witness:
  "list_all always_safe ''1234-abc.apps.googleusercontent.com'' \<and>
   param_values ''scope''
     (auth_url ''1234-abc.apps.googleusercontent.com'' ''http://localhost:8080'' localhost_scopes)
   = [join '' '' localhost_scopes] \<and>
   percent_encoded
     (auth_url ''1234-abc.apps.googleusercontent.com'' ''http://localhost:8080'' localhost_scopes)"
proof -
  have h0: "list_all always_safe ''1234-abc.apps.googleusercontent.com''"
    by (simp add: always_safe_def)
  then have h: "\<forall>c \<in> set ''1234-abc.apps.googleusercontent.com''. always_safe c"
    by (simp only: list_all_iff)
  from auth_url_parameters [OF h, of "''http://localhost:8080''" localhost_scopes] h0
  show ?thesis by blast
qed

text \<open>
  Without the condition on the client id the claim fails: a client id with an ampersand
  brings a second \<open>scope\<close> parameter, and one with a blank leaves the URL unencoded.
\<close>

theorem auth_url_raw_client_id:
  "param_values ''scope'' (auth_url ''a&scope=b'' ''http://localhost:8080'' [''s1'', ''s2''])
     = [''b'', ''s1 s2''] \<and>
   \<not> percent_encoded (auth_url ''a b'' ''http://localhost:8080'' [''s1'', ''s2''])"
  by code_simp

subsection \<open>C4: the three branches of the callback handler\<close>



subsection \<open>C5: the timeout\<close>

text \<open>
  Claim C5. In the local-redirect flow with the credentials set, if no callback handled
  within the 300 seconds of waiting carries a code, the flow reports the timeout as its
  last line, exits with status 1, and sends nothing to the token endpoint.
\<close>

theorem localhost_timeout:
  assumes "configured e"
    and "\<forall>(t, q) \<in> set (callbacks e). t < 300 \<longrightarrow> \<not> carries_code q"
  shows "exit_status (localhost_script e) = 1 \<and> posts (localhost_script e) = [] \<and>
         last (stdout (localhost_script e)) = Line ''\<newline>Timeout: No authorization code received.''"
  using localhost_script_timeout [OF assms(1) listener_no_code [OF assms(2)]] .

theorem localhost_timeout_witness:
  "configured (example_env\<lparr>callbacks := [(2, []), (5, [(''error'', [''access_denied''])]),
      (301, [(''code'', [''4/0AbC''])])]\<rparr>) \<and>
   \<not> carries_code [] \<and> \<not> carries_code [(''error'', [''access_denied''])] \<and>
   \<not> (301 :: real) < 300 \<and>
   exit_status (localhost_script (example_env\<lparr>callbacks := [(2, []),
      (5, [(''error'', [''access_denied''])]), (301, [(''code'', [''4/0AbC''])])]\<rparr>)) = 1 \<and>
   posts (localhost_script (example_env\<lparr>callbacks := [(2, []),
      (5, [(''error'', [''access_denied''])]), (301, [(''code'', [''4/0AbC''])])]\<rparr>)) = []"
proof -
  let ?e = "example_env\<lparr>callbacks := [(2, []), (5, [(''error'', [''access_denied''])]),
      (301, [(''code'', [''4/0AbC''])])]\<rparr>"
  have 1: "configured ?e"
    using configured_example by (simp add: configured_def getenv_def)
  have 0: "\<not> carries_code []" "\<not> carries_code [(''error'', [''access_denied''])]"
    "\<not> (301 :: real) < 300"
    by (simp_all add: carries_code_def)
  then have 2: "\<forall>(t, q) \<in> set (callbacks ?e). t < 300 \<longrightarrow> \<not> carries_code q"
    by simp
  from localhost_timeout [OF 1 2] 0 1 show ?thesis by blast
qed

subsection \<open>C6: the refresh token is printed and saved\<close>

text \<open>
  Claim C6. In both flows, when the token endpoint's JSON answer has the key
  \<open>refresh_token\<close> with the string \<open>R\<close> as its value, the flow prints \<open>R\<close> and
  leaves \<open>refresh_token.txt\<close> with exactly \<open>R\<close> as its contents, whatever the file
  held before; no other file changes, and the exit status is 0.
\<close>

theorem refresh_token_saved:
  assumes "configured e" and "token_endpoint e = Response (JObj kvs)"
    and "map_of kvs ''refresh_token'' = Some (JStr R)"
  shows "(code_entered e \<longrightarrow>
            Line R \<in> set (stdout (manual_script e)) \<and>
            files_after (manual_script e) = (files e)(''refresh_token.txt'' \<mapsto> R) \<and>
            exit_status (manual_script e) = 0) \<and>
         (code_captured e \<longrightarrow>
            Line R \<in> set (stdout (localhost_script e)) \<and>
            files_after (localhost_script e) = (files e)(''refresh_token.txt'' \<mapsto> R) \<and>
            exit_status (localhost_script e) = 0)"
proof (intro conjI impI)
  assume "code_entered e"
  then obtain line where "stdin e = Some line" "strip line \<noteq> []"
    by (auto simp: code_entered_def split: option.splits)
  from manual_script_exchange [OF assms(1) this] obtain out req where
    "manual_script e = exchange manual_hint e out req"
    by blast
  with exchange_refresh [OF assms(2,3)]
  show "Line R \<in> set (stdout (manual_script e))"
    "files_after (manual_script e) = (files e)(''refresh_token.txt'' \<mapsto> R)"
    "exit_status (manual_script e) = 0"
    by simp_all
next
  assume "code_captured e"
  then obtain c where "auth_code (listener e) = Some c" "c \<noteq> []"
    by (auto simp: code_captured_def split: option.splits)
  from localhost_script_exchange [OF assms(1) this] obtain out req where
    "localhost_script e = exchange localhost_hint e out req"
    by blast
  with exchange_refresh [OF assms(2,3)]
  show "Line R \<in> set (stdout (localhost_script e))"
    "files_after (localhost_script e) = (files e)(''refresh_token.txt'' \<mapsto> R)"
    "exit_status (localhost_script e) = 0"
    by simp_all
qed

theorem refresh_token_saved_witness:
  "configured example_env \<and> code_entered example_env \<and> code_captured example_env \<and>
   files example_env ''refresh_token.txt'' = Some ''old'' \<and>
   Line ''R1'' \<in> set (stdout (manual_script example_env)) \<and>
   files_after (manual_script example_env) ''refresh_token.txt'' = Some ''R1'' \<and>
   Line ''R1'' \<in> set (stdout (localhost_script example_env)) \<and>
   files_after (localhost_script example_env) ''refresh_token.txt'' = Some ''R1''"
proof -
  have 1: "token_endpoint example_env =
      Response (JObj [(''refresh_token'', JStr ''R1''), (''access_token'', JStr ''A1'')])"
    by (simp add: example_env_def)
  have 2: "map_of [(''refresh_token'', JStr ''R1''), (''access_token'', JStr ''A1'')] ''refresh_token''
      = Some (JStr ''R1'')"
    by simp
  have 3: "files example_env ''refresh_token.txt'' = Some ''old''"
    by (simp add: example_env_def)
  from refresh_token_saved [OF configured_example 1 2]
    configured_example code_entered_example code_captured_example 3
  show ?thesis by simp
qed

subsection \<open>C7: an answer without a refresh token\<close>



subsection \<open>C8: an empty code in the manual flow\<close>

text \<open>
  Claim C8. Whenever the operator enters an empty authorization code, the manual flow
  exits with status 1 and makes no network call.
\<close>

theorem empty_code_aborts:
  assumes "stdin e = Some []"
  shows "exit_status (manual_script e) = 1 \<and> posts (manual_script e) = []"
  using manual_script_aborts [OF assms] by (simp add: strip_def lstrip_Nil rstrip_Nil)

theorem empty_code_aborts_witness:
  "stdin (example_env\<lparr>stdin := Some []\<rparr>) = Some [] \<and>
   exit_status (manual_script (example_env\<lparr>stdin := Some []\<rparr>)) = 1 \<and>
   posts (manual_script (example_env\<lparr>stdin := Some []\<rparr>)) = []"
  using empty_code_aborts [of "example_env\<lparr>stdin := Some []\<rparr>"] by simp

subsection \<open>C9: the operator's input is stripped\<close>



subsection \<open>C10: a code wins over an error\<close>



end
